theory Spec2Isabelle
  imports Complex_Main
begin

section \<open>Data model\<close>

text \<open>
  The notebook \<open>train_model.ipynb\<close> reads audio recordings, normalises and segments them
  (\<open>import_data\<close>), accumulates the segments of all files of \<open>flist\<close> into \<open>X\<close> and \<open>y\<close>,
  and takes the magnitude spectrum of every row.

  A sample is a float64: a finite number (a real number here, arithmetic on finite numbers
  is exact), an infinity or \<open>nan\<close>. A file in a float format can hold all of them.
  NumPy computes with infinities and \<open>nan\<close> without raising; for an invalid operation
  such as \<open>0/0\<close> it prints a RuntimeWarning and stores \<open>nan\<close>.
\<close>

datatype pyerr = ValueError | ZeroDivisionError | IndexError | RuntimeError

datatype fval = Fin real | PInf | NInf | NaN

text \<open>
  What \<open>sf.read\<close> returns: a one-dimensional array for a mono file, an array of shape
  (frames, channels) for a file with several channels, stored frame by frame.
\<close>

datatype 'a recording = Mono "'a list" | Multi nat "'a list list"

text \<open>
  The arrays \<open>import_data\<close> builds with \<open>np.array\<close>, \<open>np.zeros\<close> and \<open>np.empty\<close>:
  \<open>np.array([])\<close> has shape (0,), a list of rows of one length \<open>c\<close> gives shape
  (rows, \<open>c\<close>), and rows of different lengths give a one-dimensional array of objects.
\<close>

datatype 'a ndarray = Empty1D | Mat nat "'a list list" | Ragged "'a list list"

fun samples :: "'a recording \<Rightarrow> 'a list" where
  "samples (Mono xs) = xs"
| "samples (Multi c frames) = concat frames"

fun well_shaped :: "'a recording \<Rightarrow> bool" where
  "well_shaped (Mono xs) = True"
| "well_shaped (Multi c frames) = list_all (\<lambda>f. length f = c) frames"

fun shape0 :: "'a ndarray \<Rightarrow> nat" where
  "shape0 Empty1D = 0"
| "shape0 (Mat c rows) = length rows"
| "shape0 (Ragged rows) = length rows"

fun rows_of :: "'a ndarray \<Rightarrow> 'a list list" where
  "rows_of Empty1D = []"
| "rows_of (Mat c rows) = rows"
| "rows_of (Ragged rows) = rows"

fun is_ragged :: "'a ndarray \<Rightarrow> bool" where
  "is_ragged (Ragged rows) = True"
| "is_ragged _ = False"

section \<open>The NumPy and Python operations the notebook calls\<close>

fun is_finite :: "fval \<Rightarrow> bool" where
  "is_finite (Fin v) = True"
| "is_finite _ = False"

text \<open>The comparison \<open>x >= 0\<close> of floats: false for \<open>nan\<close>.\<close>

fun ge0 :: "fval \<Rightarrow> bool" where
  "ge0 (Fin v) = (0 \<le> v)"
| "ge0 PInf = True"
| "ge0 _ = False"

text \<open>\<open>np.abs\<close> of one float.\<close>

fun fabs :: "fval \<Rightarrow> fval" where
  "fabs (Fin v) = Fin \<bar>v\<bar>"
| "fabs PInf = PInf"
| "fabs NInf = PInf"
| "fabs NaN = NaN"

text \<open>\<open>np.maximum\<close> of two floats: \<open>nan\<close> when one of them is \<open>nan\<close>.\<close>

fun fmax :: "fval \<Rightarrow> fval \<Rightarrow> fval" where
  "fmax NaN y = NaN"
| "fmax x NaN = NaN"
| "fmax PInf y = PInf"
| "fmax x PInf = PInf"
| "fmax NInf y = y"
| "fmax x NInf = x"
| "fmax (Fin a) (Fin b) = Fin (max a b)"

text \<open>
  \<open>np.max\<close> reduces the array with \<open>np.maximum\<close> and raises ValueError on an array
  without elements.
\<close>

definition np_max :: "fval list \<Rightarrow> pyerr + fval" where
  "np_max xs = (case xs of [] \<Rightarrow> Inl ValueError | x # rest \<Rightarrow> Inr (fold fmax rest x))"

text \<open>
  Element-wise float division. \<open>0/0\<close> and \<open>inf/inf\<close> are \<open>nan\<close>, a finite number
  divided by an infinity is zero, and \<open>x/0\<close> for another \<open>x\<close> is an infinity. The zero
  divisor is taken as \<open>+0.0\<close>: the only divisor of the notebook is a maximum of absolute
  values.
\<close>

fun np_divide :: "fval \<Rightarrow> fval \<Rightarrow> fval" where
  "np_divide NaN p = NaN"
| "np_divide x NaN = NaN"
| "np_divide (Fin x) (Fin p) =
     (if p = 0 then (if x = 0 then NaN else if 0 < x then PInf else NInf)
      else Fin (x / p))"
| "np_divide (Fin x) p = Fin 0"
| "np_divide PInf (Fin p) = (if p < 0 then NInf else PInf)"
| "np_divide NInf (Fin p) = (if p < 0 then PInf else NInf)"
| "np_divide x p = NaN"

text \<open>
  \<open>np.ndarray.flatten(data, order='F')\<close>: column-major order, the first index (the frame)
  runs fastest.
\<close>

fun flatten_F :: "'a recording \<Rightarrow> 'a list" where
  "flatten_F (Mono xs) = xs"
| "flatten_F (Multi c frames) = concat (map (\<lambda>j. map (\<lambda>f. f ! j) frames) [0..<c])"

text \<open>The slice \<open>data[a:b]\<close> for indices that are not negative: it stops at the end of \<open>data\<close>.\<close>

definition py_slice :: "'a list \<Rightarrow> nat \<Rightarrow> nat \<Rightarrow> 'a list" where
  "py_slice xs a b = take (b - a) (drop a xs)"

text \<open>
  \<open>np.ceil(a / b)\<close> for Python integers: \<open>/\<close> is the true division and raises
  ZeroDivisionError for \<open>b = 0\<close>.
\<close>

definition np_ceil_div :: "int \<Rightarrow> nat \<Rightarrow> pyerr + int" where
  "np_ceil_div a b =
     (if b = 0 then Inl ZeroDivisionError else Inr \<lceil>real_of_int a / real b\<rceil>)"

fun np_array :: "'a list list \<Rightarrow> 'a ndarray" where
  "np_array [] = Empty1D"
| "np_array (r # rs) =
     (if list_all (\<lambda>q. length q = length r) rs then Mat (length r) (r # rs)
      else Ragged (r # rs))"

definition np_zeros :: "nat \<Rightarrow> nat \<Rightarrow> int ndarray" where
  "np_zeros r c = Mat c (replicate r (replicate c 0))"

definition np_empty :: "nat \<Rightarrow> 'a ndarray" where
  "np_empty c = Mat c []"

text \<open>An index into an axis of length \<open>n\<close>; a negative index counts from the end.\<close>

definition py_index :: "nat \<Rightarrow> int \<Rightarrow> nat option" where
  "py_index n i =
     (let j = (if i < 0 then int n + i else i)
      in if 0 \<le> j \<and> j < int n then Some (nat j) else None)"

text \<open>\<open>y[:, k] = v\<close>; IndexError when \<open>k\<close> is out of range or \<open>y\<close> has one dimension.\<close>

fun set_column :: "'a ndarray \<Rightarrow> int \<Rightarrow> 'a \<Rightarrow> pyerr + 'a ndarray" where
  "set_column (Mat c rows) k v =
     (case py_index c k of
        None \<Rightarrow> Inl IndexError
      | Some j \<Rightarrow> Inr (Mat c (map (\<lambda>r. r[j := v]) rows)))"
| "set_column _ k v = Inl IndexError"

text \<open>
  \<open>np.append(a, b, axis=0)\<close> concatenates along the first axis and raises ValueError when
  the numbers of dimensions or the row lengths differ.
\<close>

fun np_append :: "'a ndarray \<Rightarrow> 'a ndarray \<Rightarrow> pyerr + 'a ndarray" where
  "np_append (Mat c r) (Mat c' r') = (if c = c' then Inr (Mat c (r @ r')) else Inl ValueError)"
| "np_append (Mat c r) b = Inl ValueError"
| "np_append a (Mat c r) = Inl ValueError"
| "np_append Empty1D b = Inr b"
| "np_append a Empty1D = Inr a"
| "np_append (Ragged r) (Ragged r') = Inr (Ragged (r @ r'))"

section \<open>The file table\<close>

text \<open>
  A Python dict keeps its keys in the order of their first insertion; storing under a key
  that is present replaces the value in place.
\<close>

fun dict_set :: "('k \<times> 'v) list \<Rightarrow> 'k \<Rightarrow> 'v \<Rightarrow> ('k \<times> 'v) list" where
  "dict_set [] k v = [(k, v)]"
| "dict_set ((k', v') # d) k v =
     (if k' = k then (k', v) # d else (k', v') # dict_set d k v)"

definition py_dict :: "('k \<times> 'v) list \<Rightarrow> ('k \<times> 'v) list" where
  "py_dict entries = foldl (\<lambda>d (k, v). dict_set d k v) [] entries"

definition fprefix :: string where
  "fprefix = ''data/07_12_2017_recordings/''"

definition flist_entries :: "(string \<times> int) list" where
  "flist_entries =
     [(''plastic_spheres_1.wav'', 0), (''plastic_spheres_2.wav'', 0),
      (''plastic_spheres_3.wav'', 0), (''plastic_spheres_4.wav'', 0),
      (''steel_nut_M3_1.wav'', 1), (''steel_nut_M3_2.wav'', 1),
      (''steel_nut_M3_3.wav'', 1), (''steel_nut_M3_4.wav'', 1),
      (''steel_nut_M4_1.wav'', 2), (''steel_nut_M4_2.wav'', 2),
      (''steel_nut_M4_3.wav'', 2), (''steel_nut_M4_4.wav'', 2),
      (''messing_nut_M4_1.wav'', 3), (''messing_nut_M4_1.wav'', 3),
      (''messing_nut_M4_1.wav'', 3), (''messing_nut_M4_1.wav'', 3),
      (''screws_1.wav'', 4), (''screws_2.wav'', 4),
      (''screws_3.wav'', 4), (''screws_4.wav'', 4)]"

definition flist :: "(string \<times> int) list" where
  "flist = py_dict flist_entries"

section \<open>import_data\<close>

text \<open>
  \<open>data = data/np.max(np.abs(data[:]))\<close>: every sample is divided by the peak level of
  the recording; the shape is kept.
\<close>

definition normalize_level :: "fval recording \<Rightarrow> pyerr + fval recording" where
  "normalize_level raw =
     (case np_max (map fabs (samples raw)) of
        Inl e \<Rightarrow> Inl e
      | Inr peak \<Rightarrow> Inr (map_recording (\<lambda>x. np_divide x peak) raw))"

text \<open>
  \<open>import_data(fname, nclass, segment_size, segment_step)\<close>. The files are a partial
  function \<open>fs\<close> from names to decoded recordings (\<open>sf.read\<close> raises a RuntimeError for
  a file it cannot open); \<open>n_classes\<close> is the global the function reads. The segment
  size and step are numbers of samples.
\<close>

definition import_data ::
  "(string \<Rightarrow> fval recording option) \<Rightarrow> nat \<Rightarrow> string \<Rightarrow> int \<Rightarrow> nat \<Rightarrow> nat
     \<Rightarrow> pyerr + (fval ndarray \<times> int ndarray)" where
  "import_data fs n_classes fname nclass segment_size segment_step =
     (case fs fname of
        None \<Rightarrow> Inl RuntimeError
      | Some raw \<Rightarrow>
          (case normalize_level raw of
             Inl e \<Rightarrow> Inl e
           | Inr normed \<Rightarrow>
               (let data = flatten_F normed in
                case np_ceil_div (int (length data) - int segment_size) segment_step of
                  Inl e \<Rightarrow> Inl e
                | Inr nseg \<Rightarrow>
                    (let X = np_array
                           (map (\<lambda>i. py_slice data (i * segment_step)
                                        (i * segment_step + segment_size))
                              [0..<nat nseg])
                     in case set_column (np_zeros (shape0 X) n_classes) nclass 1 of
                          Inl e \<Rightarrow> Inl e
                        | Inr y \<Rightarrow> Inr (X, y)))))"

section \<open>The accumulation loop and the magnitude spectrum\<close>

definition loop_body ::
  "(string \<Rightarrow> fval recording option) \<Rightarrow> nat \<Rightarrow> string \<Rightarrow> nat \<Rightarrow> nat
     \<Rightarrow> fval ndarray \<times> int ndarray \<Rightarrow> string \<times> int
     \<Rightarrow> pyerr + (fval ndarray \<times> int ndarray)" where
  "loop_body fs n_classes prefix segment_size segment_step st item =
     (case import_data fs n_classes (prefix @ fst item) (snd item) segment_size segment_step of
        Inl e \<Rightarrow> Inl e
      | Inr (Xt, yt) \<Rightarrow>
          (case np_append (fst st) Xt of
             Inl e \<Rightarrow> Inl e
           | Inr X' \<Rightarrow>
               (case np_append (snd st) yt of
                  Inl e \<Rightarrow> Inl e
                | Inr y' \<Rightarrow> Inr (X', y'))))"

fun accumulate ::
  "(string \<Rightarrow> fval recording option) \<Rightarrow> nat \<Rightarrow> string \<Rightarrow> nat \<Rightarrow> nat
     \<Rightarrow> (string \<times> int) list \<Rightarrow> fval ndarray \<times> int ndarray
     \<Rightarrow> pyerr + (fval ndarray \<times> int ndarray)" where
  "accumulate fs n_classes prefix segment_size segment_step [] st = Inr st"
| "accumulate fs n_classes prefix segment_size segment_step (item # items) st =
     (case loop_body fs n_classes prefix segment_size segment_step st item of
        Inl e \<Rightarrow> Inl e
      | Inr st' \<Rightarrow> accumulate fs n_classes prefix segment_size segment_step items st')"

definition assemble ::
  "(string \<Rightarrow> fval recording option) \<Rightarrow> nat \<Rightarrow> string \<Rightarrow> nat \<Rightarrow> nat
     \<Rightarrow> (string \<times> int) list \<Rightarrow> pyerr + (fval ndarray \<times> int ndarray)" where
  "assemble fs n_classes prefix segment_size segment_step items =
     accumulate fs n_classes prefix segment_size segment_step items
       (np_empty segment_size, np_empty n_classes)"

text \<open>
  Bin \<open>k\<close> of the discrete Fourier transform of a row of real numbers; \<open>np.fft.rfft\<close>
  returns the bins \<open>0 .. n div 2\<close>.
\<close>

definition dft_bin :: "real list \<Rightarrow> nat \<Rightarrow> complex" where
  "dft_bin xs k =
     (\<Sum>n<length xs. of_real (xs ! n) * cis (- 2 * pi * real k * real n / real (length xs)))"

fun finite_row :: "fval list \<Rightarrow> real list option" where
  "finite_row [] = Some []"
| "finite_row (Fin v # r) = map_option (\<lambda>vs. v # vs) (finite_row r)"
| "finite_row (_ # r) = None"

text \<open>
  \<open>np.abs(np.fft.rfft(row))\<close>. For a row of finite samples the bins are the absolute
  values of the transform. Every bin is a sum over all samples of the row, so a \<open>nan\<close>
  in a row without an infinity makes every bin \<open>nan\<close>. In a row with an infinity, which
  bins are infinite and which are \<open>nan\<close> depends on the order in which the transform of
  the library adds the samples: \<open>inf_bins r k\<close> stands for bin \<open>k\<close> of such a row \<open>r\<close>.
\<close>

definition rfft_abs_row :: "(fval list \<Rightarrow> nat \<Rightarrow> fval) \<Rightarrow> fval list \<Rightarrow> fval list" where
  "rfft_abs_row inf_bins r =
     (case finite_row r of
        Some vs \<Rightarrow> map (\<lambda>k. Fin (cmod (dft_bin vs k))) [0..<length r div 2 + 1]
      | None \<Rightarrow>
          if PInf \<in> set r \<or> NInf \<in> set r then map (inf_bins r) [0..<length r div 2 + 1]
          else replicate (length r div 2 + 1) NaN)"

text \<open>
  \<open>X = np.abs(np.fft.rfft(X, axis=1))\<close>: \<open>rfft\<close> raises ValueError for rows without
  samples, and an array of one dimension has no axis 1.
\<close>

fun magnitude_step ::
  "(fval list \<Rightarrow> nat \<Rightarrow> fval) \<Rightarrow> fval ndarray \<Rightarrow> pyerr + fval ndarray" where
  "magnitude_step inf_bins (Mat c rows) =
     (if c = 0 then Inl ValueError
      else Inr (Mat (c div 2 + 1) (map (rfft_abs_row inf_bins) rows)))"
| "magnitude_step inf_bins X = Inl IndexError"

text \<open>
  \<open>X = np.float32(X)\<close> converts every entry. \<open>rnd v\<close> stands for the float32 nearest to
  the finite float64 \<open>v\<close> (an infinity when \<open>v\<close> is too large for a float32); infinities
  and \<open>nan\<close> are kept. An array of objects cannot be converted.
\<close>

fun cast32 :: "(real \<Rightarrow> fval) \<Rightarrow> fval \<Rightarrow> fval" where
  "cast32 rnd (Fin v) = rnd v"
| "cast32 rnd x = x"

fun np_float32 :: "(real \<Rightarrow> fval) \<Rightarrow> fval ndarray \<Rightarrow> pyerr + fval ndarray" where
  "np_float32 rnd (Ragged rows) = Inl ValueError"
| "np_float32 rnd X = Inr (map_ndarray (cast32 rnd) X)"

text \<open>
  The list comprehension of \<open>import_data\<close>, for a segment step that is not zero: one
  window per index below the number of segments.
\<close>

definition windows :: "'a list \<Rightarrow> nat \<Rightarrow> nat \<Rightarrow> 'a list list" where
  "windows xs L S =
     map (\<lambda>i. py_slice xs (i * S) (i * S + L))
       [0..<nat \<lceil>real_of_int (int (length xs) - int L) / real S\<rceil>]"

text \<open>
  The cell as a whole: the loop over the items of the file table, then the magnitude
  spectrum of the accumulated segments and its conversion to float32.
\<close>

definition features ::
  "(fval list \<Rightarrow> nat \<Rightarrow> fval) \<Rightarrow> (real \<Rightarrow> fval) \<Rightarrow> (string \<Rightarrow> fval recording option)
     \<Rightarrow> nat \<Rightarrow> string \<Rightarrow> nat \<Rightarrow> nat
     \<Rightarrow> (string \<times> int) list \<Rightarrow> pyerr + (fval ndarray \<times> int ndarray)" where
  "features inf_bins rnd fs n_classes prefix segment_size segment_step items =
     (case assemble fs n_classes prefix segment_size segment_step items of
        Inl e \<Rightarrow> Inl e
      | Inr (X, y) \<Rightarrow>
          (case magnitude_step inf_bins X of
             Inl e \<Rightarrow> Inl e
           | Inr F \<Rightarrow>
               (case np_float32 rnd F of
                  Inl e \<Rightarrow> Inl e
                | Inr F32 \<Rightarrow> Inr (F32, y))))"

text \<open>
  The run of the notebook with its constants: five classes, segments of 512 samples
  every 128 samples.
\<close>

definition dataset ::
  "(fval list \<Rightarrow> nat \<Rightarrow> fval) \<Rightarrow> (real \<Rightarrow> fval) \<Rightarrow> (string \<Rightarrow> fval recording option)
     \<Rightarrow> pyerr + (fval ndarray \<times> int ndarray)" where
  "dataset inf_bins rnd fs = features inf_bins rnd fs 5 fprefix 512 128 flist"

text \<open>
  The invariant of the loop: \<open>X\<close> is a matrix of \<open>segment_size\<close> columns, \<open>y\<close> a matrix
  of \<open>n_classes\<close> columns, and both have the same number of rows.
\<close>

definition aligned :: "nat \<Rightarrow> nat \<Rightarrow> fval ndarray \<times> int ndarray \<Rightarrow> bool" where
  "aligned L n st =
     (case st of
        (Mat c rows, Mat c' lrows) \<Rightarrow>
          c = L \<and> c' = n \<and> length rows = length lrows \<and> list_all (\<lambda>r. length r = n) lrows
      | _ \<Rightarrow> False)"

section \<open>Segmentation\<close>

lemma window_inside:
  assumes "0 < S" and "i < nat \<lceil>real_of_int (int N - int L) / real S\<rceil>"
  shows "i * S + L < N"
proof -
  from assms(2) have "int i < \<lceil>real_of_int (int N - int L) / real S\<rceil>" by linarith
  then have "real_of_int (int i) < real_of_int (int N - int L) / real S"
    by (simp only: less_ceiling_iff)
  with assms(1) have "real_of_int (int i) * real S < real_of_int (int N - int L)"
    by (simp add: pos_less_divide_eq)
  then have "real (i * S + L) < real N" by simp
  then show ?thesis by (simp only: of_nat_less_iff)
qed

lemma length_py_slice: "a + L \<le> length xs \<Longrightarrow> length (py_slice xs a (a + L)) = L"
  by (simp add: py_slice_def)

lemma np_array_uniform:
  "list_all (\<lambda>r. length r = L) rows \<Longrightarrow>
     np_array rows = (if rows = [] then Empty1D else Mat L rows)"
  by (cases rows) (auto simp: list_all_iff)

lemma windows_full:
  assumes "0 < S"
  shows "list_all (\<lambda>r. length r = L) (windows xs L S)"
  unfolding windows_def list_all_iff
proof
  fix r
  assume "r \<in> set (map (\<lambda>i. py_slice xs (i * S) (i * S + L))
       [0..<nat \<lceil>real_of_int (int (length xs) - int L) / real S\<rceil>])"
  then obtain i where i: "i < nat \<lceil>real_of_int (int (length xs) - int L) / real S\<rceil>"
    and r: "r = py_slice xs (i * S) (i * S + L)" by auto
  from window_inside [OF assms i] have "i * S + L \<le> length xs" by simp
  then show "length r = L" unfolding r by (rule length_py_slice)
qed

lemma np_array_windows:
  "0 < S \<Longrightarrow> np_array (windows xs L S) =
     (if windows xs L S = [] then Empty1D else Mat L (windows xs L S))"
  by (rule np_array_uniform) (rule windows_full)



lemma shape0_np_array: "shape0 (np_array rows) = length rows"
  by (cases rows) auto


text \<open>What a call of \<open>import_data\<close> that returns has computed, and when a call returns.\<close>

lemma import_data_Inr:
  assumes "import_data fs n fname c L S = Inr (X, y)"
  shows "\<exists>raw normed k. fs fname = Some raw \<and> normalize_level raw = Inr normed \<and> 0 < S \<and>
           X = np_array (windows (flatten_F normed) L S) \<and> py_index n c = Some k \<and>
           y = Mat n (replicate (length (windows (flatten_F normed) L S))
                        ((replicate n 0)[k := 1]))"
  using assms
  by (auto simp: import_data_def windows_def np_ceil_div_def np_zeros_def Let_def shape0_np_array
           split: option.splits sum.splits if_splits)



lemma normalize_level_empty:
  "samples raw = [] \<Longrightarrow> normalize_level raw = Inl ValueError"
  by (auto simp: normalize_level_def np_max_def)






text \<open>
  Claim C2. Every row of the feature array that \<open>import_data\<close> returns has exactly
  \<open>segment_size\<close> entries, the last row too: the number of segments is chosen so that
  no window reaches the end of the recording, and the array never has rows of
  different lengths.
\<close>

theorem import_data_row_length:
  assumes "import_data fs n_classes fname nclass segment_size segment_step = Inr (X, y)"
  shows "(\<forall>r\<in>set (rows_of X). length r = segment_size) \<and> \<not> is_ragged X"
proof -
  from import_data_Inr [OF assms] obtain normed where S: "0 < segment_step"
    and X: "X = np_array (windows (flatten_F normed) segment_size segment_step)"
    by blast
  from windows_full [OF S, of segment_size "flatten_F normed"]
  show ?thesis
    by (simp add: X np_array_windows [OF S] list_all_iff)
qed

theorem import_data_row_length_witness:
  "import_data (\<lambda>_. Some (Multi 2 [[Fin 1, Fin (- 2)], [Fin 0, Fin 1], [Fin 2, Fin 0], [Fin 1, Fin 1]])) 3 ''a.wav'' 1 4 2
     = Inr (Mat 4 [[Fin (1/2), Fin 0, Fin 1, Fin (1/2)], [Fin 1, Fin (1/2), Fin (- 1), Fin (1/2)]],
            Mat 3 [[0, 1, 0], [0, 1, 0]]) \<and>
   length [Fin 1, Fin (1/2), Fin (- 1), Fin (1/2)] = (4::nat) \<and>
   \<not> is_ragged (Mat 4 [[Fin (1/2), Fin 0, Fin 1, Fin (1/2)],
                        [Fin 1, Fin (1/2), Fin (- 1), Fin (1/2)]])"
proof -
  let ?X = "Mat 4 [[Fin (1/2), Fin 0, Fin 1, Fin (1/2)], [Fin 1, Fin (1/2), Fin (- 1), Fin (1/2)]]"
  have run: "import_data (\<lambda>_. Some (Multi 2 [[Fin 1, Fin (- 2)], [Fin 0, Fin 1], [Fin 2, Fin 0], [Fin 1, Fin 1]])) 3 ''a.wav'' 1 4 2
     = Inr (?X, Mat 3 [[0, 1, 0], [0, 1, 0]])"
    by code_simp
  note th = import_data_row_length [OF run]
  have "[Fin 1, Fin (1/2), Fin (- 1), Fin (1/2)] \<in> set (rows_of ?X)" by simp
  with th have "length [Fin 1, Fin (1/2), Fin (- 1), Fin (1/2)] = (4::nat)" by blast
  with th run show ?thesis by blast
qed

section \<open>Labels and short recordings\<close>

lemma py_index_range: "py_index n c = Some k \<Longrightarrow> k < n \<and> (0 \<le> c \<longrightarrow> k = nat c)"
  by (auto simp: py_index_def Let_def split: if_splits)

lemma sum_list_zeros: "sum_list (replicate n (0::int)) = 0"
  by (induction n) simp_all

lemma sum_list_one_hot: "k < n \<Longrightarrow> sum_list ((replicate n (0::int))[k := v]) = v"
proof (induction n arbitrary: k)
  case 0
  then show ?case by simp
next
  case (Suc n)
  then show ?case by (cases k) (simp_all add: sum_list_zeros)
qed

lemma one_hot_row:
  assumes "k < n"
  shows "length ((replicate n (0::int))[k := 1]) = n"
    and "(replicate n (0::int))[k := 1] ! k = 1"
    and "\<forall>j<n. j \<noteq> k \<longrightarrow> (replicate n (0::int))[k := 1] ! j = 0"
    and "sum_list ((replicate n (0::int))[k := 1]) = 1"
  using assms by (simp_all add: sum_list_one_hot)

text \<open>
  Claim C4. When \<open>import_data\<close> returns, the label matrix has one row per window, and
  every row is the one-hot vector of the class index: \<open>n_classes\<close> entries, a 1 at the
  position the index \<open>nclass\<close> selects (position \<open>nclass\<close> itself for an index that is
  not negative), 0 everywhere else, and the entries sum to 1.
\<close>

theorem import_data_one_hot:
  assumes "import_data fs n_classes fname nclass segment_size segment_step = Inr (X, y)"
  shows "shape0 y = shape0 X \<and>
         (\<exists>k<n_classes. py_index n_classes nclass = Some k \<and> (0 \<le> nclass \<longrightarrow> k = nat nclass) \<and>
            (\<forall>row\<in>set (rows_of y).
               length row = n_classes \<and> row ! k = 1 \<and>
               (\<forall>j<n_classes. j \<noteq> k \<longrightarrow> row ! j = 0) \<and> sum_list row = 1))"
proof -
  from import_data_Inr [OF assms] obtain normed k where
    X: "X = np_array (windows (flatten_F normed) segment_size segment_step)"
    and k: "py_index n_classes nclass = Some k"
    and y: "y = Mat n_classes (replicate (length (windows (flatten_F normed) segment_size segment_step))
                        ((replicate n_classes 0)[k := 1]))"
    by blast
  from py_index_range [OF k] have kn: "k < n_classes" and kc: "0 \<le> nclass \<longrightarrow> k = nat nclass"
    by blast+
  have "shape0 y = shape0 X" by (simp add: X y shape0_np_array)
  moreover have "\<forall>row\<in>set (rows_of y).
               length row = n_classes \<and> row ! k = 1 \<and>
               (\<forall>j<n_classes. j \<noteq> k \<longrightarrow> row ! j = 0) \<and> sum_list row = 1"
    using one_hot_row [OF kn] by (auto simp: y)
  ultimately show ?thesis using k kn kc by blast
qed

theorem import_data_one_hot_witness:
  "import_data (\<lambda>_. Some (Multi 2 [[Fin 1, Fin (- 2)], [Fin 0, Fin 1], [Fin 2, Fin 0], [Fin 1, Fin 1]])) 3 ''a.wav'' 1 4 2
     = Inr (Mat 4 [[Fin (1/2), Fin 0, Fin 1, Fin (1/2)], [Fin 1, Fin (1/2), Fin (- 1), Fin (1/2)]],
            Mat 3 [[0, 1, 0], [0, 1, 0]]) \<and>
   shape0 (Mat 3 [[0, 1, 0], [0, 1, 0::int]])
     = shape0 (Mat 4 [[Fin (1/2), Fin 0, Fin 1, Fin (1/2)], [Fin 1, Fin (1/2), Fin (- 1), Fin (1/2)]]) \<and>
   py_index 3 1 = Some 1 \<and> [0, 1, 0::int] \<in> set (rows_of (Mat 3 [[0, 1, 0], [0, 1, 0]])) \<and>
   length [0, 1, 0::int] = 3 \<and> [0, 1, 0::int] ! 1 = 1 \<and> [0, 1, 0::int] ! 0 = 0 \<and>
   [0, 1, 0::int] ! 2 = 0 \<and> sum_list [0, 1, 0::int] = 1"
proof -
  let ?X = "Mat 4 [[Fin (1/2), Fin 0, Fin 1, Fin (1/2)], [Fin 1, Fin (1/2), Fin (- 1), Fin (1/2)]]"
  let ?y = "Mat 3 [[0, 1, 0], [0, 1, 0::int]]"
  have run: "import_data (\<lambda>_. Some (Multi 2 [[Fin 1, Fin (- 2)], [Fin 0, Fin 1], [Fin 2, Fin 0], [Fin 1, Fin 1]])) 3 ''a.wav'' 1 4 2
     = Inr (?X, ?y)"
    by code_simp
  have idx: "py_index 3 1 = Some 1" by (simp add: py_index_def)
  have mem: "[0, 1, 0::int] \<in> set (rows_of ?y)" by simp
  from import_data_one_hot [OF run] idx
  have "shape0 ?y = shape0 ?X"
    and "\<forall>row\<in>set (rows_of ?y). length row = 3 \<and> row ! 1 = 1 \<and>
               (\<forall>j<3. j \<noteq> 1 \<longrightarrow> row ! j = 0) \<and> sum_list row = 1"
    by auto
  with mem have "shape0 ?y = shape0 ?X" and "length [0, 1, 0::int] = 3" and "[0, 1, 0::int] ! 1 = 1"
    and "\<forall>j<3. j \<noteq> 1 \<longrightarrow> [0, 1, 0::int] ! j = 0" and "sum_list [0, 1, 0::int] = 1"
    by blast+
  moreover from this(4) have "[0, 1, 0::int] ! 0 = 0" and "[0, 1, 0::int] ! 2 = 0"
    by simp_all
  ultimately show ?thesis using run idx mem by blast
qed




section \<open>The accumulation loop\<close>

lemma aligned_init: "aligned L n (np_empty L, np_empty n)"
  by (simp add: aligned_def np_empty_def)

lemma loop_body_aligned:
  assumes "loop_body fs n prefix L S st item = Inr st'" and "aligned L n st"
  shows "aligned L n st'"
proof -
  from assms(2) obtain rows lrows where st: "st = (Mat L rows, Mat n lrows)"
    and len: "length rows = length lrows" and lab: "list_all (\<lambda>r. length r = n) lrows"
    by (auto simp: aligned_def split: prod.splits ndarray.splits)
  from assms(1) obtain Xt yt X' y' where
    imp: "import_data fs n (prefix @ fst item) (snd item) L S = Inr (Xt, yt)"
    and aX: "np_append (Mat L rows) Xt = Inr X'" and ay: "np_append (Mat n lrows) yt = Inr y'"
    and st': "st' = (X', y')"
    by (auto simp: loop_body_def st split: sum.splits prod.splits)
  from import_data_Inr [OF imp] obtain normed k where pos: "0 < S"
    and Xt: "Xt = np_array (windows (flatten_F normed) L S)"
    and k: "py_index n (snd item) = Some k"
    and yt: "yt = Mat n (replicate (length (windows (flatten_F normed) L S))
                        ((replicate n 0)[k := 1]))"
    by blast
  from aX have ne: "windows (flatten_F normed) L S \<noteq> []"
    and X': "X' = Mat L (rows @ windows (flatten_F normed) L S)"
    by (auto simp: Xt np_array_windows [OF pos] split: if_splits)
  from ay have y': "y' = Mat n (lrows @ replicate (length (windows (flatten_F normed) L S))
                        ((replicate n 0)[k := 1]))"
    by (auto simp: yt)
  show ?thesis
    using len lab by (auto simp: st' X' y' aligned_def list_all_iff)
qed

lemma accumulate_aligned:
  "accumulate fs n prefix L S items st = Inr st' \<Longrightarrow> aligned L n st \<Longrightarrow> aligned L n st'"
proof (induction items arbitrary: st)
  case Nil
  then show ?case by simp
next
  case (Cons item items)
  from Cons.prems(1) obtain st1 where
    step: "loop_body fs n prefix L S st item = Inr st1"
    and rest: "accumulate fs n prefix L S items st1 = Inr st'"
    by (auto split: sum.splits)
  from loop_body_aligned [OF step Cons.prems(2)] have "aligned L n st1" .
  with rest show ?case by (rule Cons.IH)
qed

lemma magnitude_step_shape0:
  "magnitude_step inf_bins X = Inr F \<Longrightarrow> shape0 F = shape0 X"
  by (cases X) (auto split: if_splits)

lemma np_float32_shape0: "np_float32 rnd F = Inr G \<Longrightarrow> shape0 G = shape0 F"
  by (cases F) auto

text \<open>
  Claim C5. The state of the loop after any number \<open>j\<close> of files, and so also after
  the last one: \<open>X\<close> and \<open>y\<close> have the same number of rows, and \<open>y\<close> is a matrix of
  \<open>n_classes\<close> columns. The magnitude spectrum taken after the loop and the conversion
  to float32 keep the number of rows, so the feature matrix and the label matrix of the
  finished cell have equal row counts as well.
\<close>

theorem accumulation_rows_aligned:
  assumes "assemble fs n_classes prefix segment_size segment_step (take j items) = Inr (X, y)"
  shows "shape0 X = shape0 y \<and>
         (\<exists>rows. y = Mat n_classes rows \<and> (\<forall>r\<in>set rows. length r = n_classes)) \<and>
         (\<forall>F. magnitude_step inf_bins X = Inr F \<longrightarrow> shape0 F = shape0 y) \<and>
         (\<forall>F y'. features inf_bins rnd fs n_classes prefix segment_size segment_step (take j items)
                   = Inr (F, y')
            \<longrightarrow> y' = y \<and> shape0 F = shape0 y')"
proof -
  from assms have "aligned segment_size n_classes (X, y)"
    unfolding assemble_def by (rule accumulate_aligned) (rule aligned_init)
  then have rows: "shape0 X = shape0 y"
    and cols: "\<exists>rows. y = Mat n_classes rows \<and> (\<forall>r\<in>set rows. length r = n_classes)"
    by (auto simp: aligned_def list_all_iff split: ndarray.splits)
  from rows have mag: "\<forall>F. magnitude_step inf_bins X = Inr F \<longrightarrow> shape0 F = shape0 y"
    by (auto dest: magnitude_step_shape0)
  then have "\<forall>F y'. features inf_bins rnd fs n_classes prefix segment_size segment_step (take j items)
                   = Inr (F, y')
            \<longrightarrow> y' = y \<and> shape0 F = shape0 y'"
    by (auto simp: features_def assms split: sum.splits dest: np_float32_shape0)
  with rows cols mag show ?thesis by blast
qed

theorem accumulation_rows_aligned_witness:
  "assemble (\<lambda>f. if f = ''d/a.wav''
                 then Some (Multi 2 [[Fin 1, Fin (- 2)], [Fin 0, Fin 1], [Fin 2, Fin 0], [Fin 1, Fin 1]])
                 else if f = ''d/b.wav'' then Some (Mono [Fin 3, Fin 1, Fin 2, Fin (- 1), Fin 0])
                 else None)
      3 ''d/'' 4 2 (take 2 [(''a.wav'', 1), (''b.wav'', 2), (''c.wav'', 0)])
     = Inr (Mat 4 [[Fin (1/2), Fin 0, Fin 1, Fin (1/2)],
                   [Fin 1, Fin (1/2), Fin (- 1), Fin (1/2)],
                   [Fin 1, Fin (1/3), Fin (2/3), Fin (- (1/3))]],
            Mat 3 [[0, 1, 0], [0, 1, 0], [0, 0, 1]]) \<and>
   shape0 (Mat 4 [[Fin (1/2), Fin 0, Fin 1, Fin (1/2)],
                  [Fin 1, Fin (1/2), Fin (- 1), Fin (1/2)],
                  [Fin 1, Fin (1/3), Fin (2/3), Fin (- (1/3))]])
     = shape0 (Mat 3 [[0, 1, 0], [0, 1, 0], [0, 0, 1::int]]) \<and>
   length [0, 0, 1::int] = 3 \<and>
   magnitude_step (\<lambda>r k. NaN) (Mat 4 [[Fin (1/2), Fin 0, Fin 1, Fin (1/2)],
                          [Fin 1, Fin (1/2), Fin (- 1), Fin (1/2)],
                          [Fin 1, Fin (1/3), Fin (2/3), Fin (- (1/3))]])
     = Inr (Mat 3 (map (rfft_abs_row (\<lambda>r k. NaN)) [[Fin (1/2), Fin 0, Fin 1, Fin (1/2)],
                                     [Fin 1, Fin (1/2), Fin (- 1), Fin (1/2)],
                                     [Fin 1, Fin (1/3), Fin (2/3), Fin (- (1/3))]])) \<and>
   shape0 (Mat 3 (map (rfft_abs_row (\<lambda>r k. NaN)) [[Fin (1/2), Fin 0, Fin 1, Fin (1/2)],
                                    [Fin 1, Fin (1/2), Fin (- 1), Fin (1/2)],
                                    [Fin 1, Fin (1/3), Fin (2/3), Fin (- (1/3))]]))
     = shape0 (Mat 3 [[0, 1, 0], [0, 1, 0], [0, 0, 1::int]])"
proof -
  let ?fs = "\<lambda>f. if f = ''d/a.wav''
                 then Some (Multi 2 [[Fin 1, Fin (- 2)], [Fin 0, Fin 1], [Fin 2, Fin 0], [Fin 1, Fin 1]])
                 else if f = ''d/b.wav'' then Some (Mono [Fin 3, Fin 1, Fin 2, Fin (- 1), Fin 0])
                 else None"
  let ?rows = "[[Fin (1/2), Fin 0, Fin 1, Fin (1/2)],
                [Fin 1, Fin (1/2), Fin (- 1), Fin (1/2)],
                [Fin 1, Fin (1/3), Fin (2/3), Fin (- (1/3))]]"
  let ?y = "Mat 3 [[0, 1, 0], [0, 1, 0], [0, 0, 1::int]]"
  have run: "assemble ?fs 3 ''d/'' 4 2 (take 2 [(''a.wav'', 1), (''b.wav'', 2), (''c.wav'', 0)])
      = Inr (Mat 4 ?rows, ?y)"
    by code_simp
  have mag: "magnitude_step (\<lambda>r k. NaN) (Mat 4 ?rows) = Inr (Mat 3 (map (rfft_abs_row (\<lambda>r k. NaN)) ?rows))"
    by simp
  note th = accumulation_rows_aligned [OF run]
  from th have a: "shape0 (Mat 4 ?rows) = shape0 ?y" by blast
  from th have "\<forall>r\<in>set (rows_of ?y). length r = 3" by auto
  then have b: "length [0, 0, 1::int] = 3" by simp
  from th mag have c: "shape0 (Mat 3 (map (rfft_abs_row (\<lambda>r k. NaN)) ?rows)) = shape0 ?y" by blast
  from run a b mag c show ?thesis by blast
qed

section \<open>Flattening and the file table\<close>

text \<open>
  Claim C6. Flattening a recording of two channels and \<open>N\<close> frames gives one sequence
  of \<open>2 * N\<close> samples: the \<open>N\<close> samples of channel 0 in order, then the \<open>N\<close> samples
  of channel 1 in order. Sample \<open>i\<close> of channel 0 is at position \<open>i\<close>, sample \<open>i\<close> of
  channel 1 at position \<open>N + i\<close>, so the channels are not interleaved.
\<close>

theorem flatten_two_channels:
  "flatten_F (Multi 2 frames) = map (\<lambda>f. f ! 0) frames @ map (\<lambda>f. f ! 1) frames \<and>
   length (flatten_F (Multi 2 frames)) = 2 * length frames \<and>
   (\<forall>i<length frames. flatten_F (Multi 2 frames) ! i = frames ! i ! 0 \<and>
                        flatten_F (Multi 2 frames) ! (length frames + i) = frames ! i ! 1)"
proof -
  have "[0..<2] = [0, 1]" by (simp add: upt_rec)
  then have "flatten_F (Multi 2 frames) = map (\<lambda>f. f ! 0) frames @ map (\<lambda>f. f ! 1) frames"
    by simp
  then show ?thesis by (simp add: nth_append)
qed

theorem flatten_two_channels_witness:
  "flatten_F (Multi 2 [[1, 2], [3, 4], [5, 6::int]]) = [1, 3, 5, 2, 4, 6] \<and>
   length (flatten_F (Multi 2 [[1, 2], [3, 4], [5, 6::int]])) = 2 * 3 \<and>
   flatten_F (Multi 2 [[1, 2], [3, 4], [5, 6::int]]) ! 1 = [[1, 2], [3, 4], [5, 6]] ! 1 ! 0 \<and>
   flatten_F (Multi 2 [[1, 2], [3, 4], [5, 6::int]]) ! (length [[1, 2], [3, 4], [5, 6::int]] + 1)
     = [[1, 2], [3, 4], [5, 6]] ! 1 ! 1 \<and>
   flatten_F (Multi 2 [[1, 2], [3, 4], [5, 6::int]]) \<noteq> samples (Multi 2 [[1, 2], [3, 4], [5, 6]])"
proof -
  let ?frames = "[[1, 2], [3, 4], [5, 6::int]]"
  note th = flatten_two_channels [of ?frames]
  from th have a: "flatten_F (Multi 2 ?frames) = [1, 3, 5, 2, 4, 6]" by simp
  from th have b: "length (flatten_F (Multi 2 ?frames)) = 2 * 3" by simp
  from th have "\<forall>i<length ?frames. flatten_F (Multi 2 ?frames) ! i = ?frames ! i ! 0 \<and>
                        flatten_F (Multi 2 ?frames) ! (length ?frames + i) = ?frames ! i ! 1"
    by blast
  moreover have "1 < length ?frames" by simp
  ultimately have "flatten_F (Multi 2 ?frames) ! 1 = ?frames ! 1 ! 0 \<and>
                        flatten_F (Multi 2 ?frames) ! (length ?frames + 1) = ?frames ! 1 ! 1"
    by blast
  then have c: "flatten_F (Multi 2 ?frames) ! 1 = ?frames ! 1 ! 0"
    and d: "flatten_F (Multi 2 ?frames) ! (length ?frames + 1) = ?frames ! 1 ! 1"
    by blast+
  have e: "flatten_F (Multi 2 ?frames) \<noteq> samples (Multi 2 ?frames)"
    unfolding a by simp
  from a b c d e show ?thesis by blast
qed

lemma map_of_dict_set: "map_of (dict_set d k v) = (map_of d)(k \<mapsto> v)"
  by (induction d k v rule: dict_set.induct) (auto simp: fun_eq_iff)

lemma keys_dict_set:
  "map fst (dict_set d k v) = (if k \<in> set (map fst d) then map fst d else map fst d @ [k])"
  by (induction d k v rule: dict_set.induct) auto

lemma py_dict_snoc: "py_dict (es @ [(k, v)]) = dict_set (py_dict es) k v"
  by (simp add: py_dict_def)

lemma map_of_py_dict: "map_of (py_dict es) = map_of (rev es)"
proof (induction es rule: rev_induct)
  case Nil
  then show ?case by (simp add: py_dict_def)
next
  case (snoc e es)
  then show ?case by (cases e) (simp add: py_dict_snoc map_of_dict_set)
qed

lemma keys_py_dict: "map fst (py_dict es) = rev (remdups (rev (map fst es)))"
proof (induction es rule: rev_induct)
  case Nil
  then show ?case by (simp add: py_dict_def)
next
  case (snoc e es)
  have "set (rev (remdups (rev (map fst es)))) = set (map fst es)" by simp
  with snoc show ?case
    by (cases e) (simp add: py_dict_snoc keys_dict_set del: set_map)
qed

text \<open>
  Claim C8. A dict built from a list of entries has every key once, at the place of its
  first entry and with the value of its last entry. The table \<open>flist\<close> of the notebook has
  17 items for its 20 entries: \<open>messing_nut_M4_1.wav\<close>, written four times, is kept once,
  and the loop, which runs over the items, reads that file once.
\<close>

theorem dict_keeps_one_entry:
  "distinct (map fst (py_dict es)) \<and>
   map fst (py_dict es) = rev (remdups (rev (map fst es))) \<and>
   map_of (py_dict es) = map_of (rev es) \<and>
   flist =
     [(''plastic_spheres_1.wav'', 0), (''plastic_spheres_2.wav'', 0),
      (''plastic_spheres_3.wav'', 0), (''plastic_spheres_4.wav'', 0),
      (''steel_nut_M3_1.wav'', 1), (''steel_nut_M3_2.wav'', 1),
      (''steel_nut_M3_3.wav'', 1), (''steel_nut_M3_4.wav'', 1),
      (''steel_nut_M4_1.wav'', 2), (''steel_nut_M4_2.wav'', 2),
      (''steel_nut_M4_3.wav'', 2), (''steel_nut_M4_4.wav'', 2),
      (''messing_nut_M4_1.wav'', 3),
      (''screws_1.wav'', 4), (''screws_2.wav'', 4),
      (''screws_3.wav'', 4), (''screws_4.wav'', 4)] \<and>
   length flist = 17"
proof -
  have "distinct (map fst (py_dict es))" by (simp add: keys_py_dict)
  moreover have items: "flist =
     [(''plastic_spheres_1.wav'', 0), (''plastic_spheres_2.wav'', 0),
      (''plastic_spheres_3.wav'', 0), (''plastic_spheres_4.wav'', 0),
      (''steel_nut_M3_1.wav'', 1), (''steel_nut_M3_2.wav'', 1),
      (''steel_nut_M3_3.wav'', 1), (''steel_nut_M3_4.wav'', 1),
      (''steel_nut_M4_1.wav'', 2), (''steel_nut_M4_2.wav'', 2),
      (''steel_nut_M4_3.wav'', 2), (''steel_nut_M4_4.wav'', 2),
      (''messing_nut_M4_1.wav'', 3),
      (''screws_1.wav'', 4), (''screws_2.wav'', 4),
      (''screws_3.wav'', 4), (''screws_4.wav'', 4)]"
    unfolding flist_def flist_entries_def by code_simp
  moreover have "length flist = 17" unfolding items by simp
  ultimately show ?thesis by (simp add: keys_py_dict map_of_py_dict)
qed

theorem dict_keeps_one_entry_witness:
  "py_dict [(''a.wav'', 1), (''b.wav'', 2), (''a.wav'', 3::int)] = [(''a.wav'', 3), (''b.wav'', 2)] \<and>
   distinct (map fst (py_dict [(''a.wav'', 1), (''b.wav'', 2), (''a.wav'', 3::int)])) \<and>
   map_of (py_dict [(''a.wav'', 1), (''b.wav'', 2), (''a.wav'', 3::int)]) ''a.wav'' = Some 3"
proof -
  have a: "py_dict [(''a.wav'', 1), (''b.wav'', 2), (''a.wav'', 3::int)] = [(''a.wav'', 3), (''b.wav'', 2)]"
    by code_simp
  from dict_keeps_one_entry [of "[(''a.wav'', 1), (''b.wav'', 2), (''a.wav'', 3::int)]"]
  have "distinct (map fst (py_dict [(''a.wav'', 1), (''b.wav'', 2), (''a.wav'', 3::int)]))"
    and "map_of (py_dict [(''a.wav'', 1), (''b.wav'', 2), (''a.wav'', 3::int)])
          = map_of (rev [(''a.wav'', 1), (''b.wav'', 2), (''a.wav'', 3::int)])"
    by blast+
  with a show ?thesis by simp
qed

section \<open>Normalisation\<close>

lemma samples_map_recording: "samples (map_recording f r) = map f (samples r)"
  by (cases r) (simp_all add: map_concat)

text \<open>
  For an array whose frames all have the length of its second axis, an element-wise
  operation and the flattening commute: the windows are slices of the flattened recording
  with every sample divided by the peak level.
\<close>

lemma flatten_F_map_recording:
  "well_shaped r \<Longrightarrow> flatten_F (map_recording f r) = map f (flatten_F r)"
proof (cases r)
  case (Mono xs)
  then show ?thesis by simp
next
  case (Multi c frames)
  assume "well_shaped r"
  with Multi have len: "\<forall>fr\<in>set frames. length fr = c" by (simp add: list_all_iff)
  have "map (\<lambda>j. map (\<lambda>fr. fr ! j) (map (map f) frames)) [0..<c]
          = map (\<lambda>j. map f (map (\<lambda>fr. fr ! j) frames)) [0..<c]"
    using len by (auto simp: comp_def)
  then have "concat (map (\<lambda>j. map (\<lambda>fr. fr ! j) (map (map f) frames)) [0..<c])
          = map f (concat (map (\<lambda>j. map (\<lambda>fr. fr ! j) frames) [0..<c]))"
    by (simp only: map_concat map_map comp_def)
  then show ?thesis by (simp add: Multi)
qed

text \<open>
  The peak level \<open>np.max(np.abs(data))\<close>: \<open>nan\<close> when a sample is \<open>nan\<close>, otherwise
  infinite when a sample is infinite, otherwise the largest absolute value.
\<close>

lemma fmax_NaN_right: "fmax x NaN = NaN"
  by (cases x) simp_all

lemma fmax_PInf_left: "y \<noteq> NaN \<Longrightarrow> fmax PInf y = PInf"
  by (cases y) simp_all

lemma fmax_PInf_right: "x \<noteq> NaN \<Longrightarrow> fmax x PInf = PInf"
  by (cases x) simp_all

lemma fold_fmax_NaN: "NaN \<in> set (a # ys) \<Longrightarrow> fold fmax ys a = NaN"
proof (induction ys arbitrary: a)
  case Nil
  then show ?case by simp
next
  case (Cons y ys)
  have "NaN \<in> set (fmax y a # ys)"
  proof (cases "y = NaN \<or> a = NaN")
    case True
    then have "fmax y a = NaN" by (auto simp: fmax_NaN_right)
    then show ?thesis by simp
  next
    case False
    with Cons.prems show ?thesis by auto
  qed
  from Cons.IH [OF this] show ?case by simp
qed

lemma fold_fmax_PInf:
  "NaN \<notin> set (a # ys) \<Longrightarrow> PInf \<in> set (a # ys) \<Longrightarrow> fold fmax ys a = PInf"
proof (induction ys arbitrary: a)
  case Nil
  then show ?case by simp
next
  case (Cons y ys)
  from Cons.prems(1) have y: "y \<noteq> NaN" and a: "a \<noteq> NaN" and ys: "NaN \<notin> set ys" by auto
  show ?case
  proof (cases "y = PInf \<or> a = PInf")
    case True
    with y a have "fmax y a = PInf" by (auto simp: fmax_PInf_left fmax_PInf_right)
    with ys have "NaN \<notin> set (fmax y a # ys)" and "PInf \<in> set (fmax y a # ys)" by simp_all
    from Cons.IH [OF this] show ?thesis by simp
  next
    case False
    with Cons.prems(2) have in_ys: "PInf \<in> set ys" by auto
    from y a have "fmax y a \<noteq> NaN" by (cases y; cases a) simp_all
    with ys in_ys have "NaN \<notin> set (fmax y a # ys)" and "PInf \<in> set (fmax y a # ys)"
      by simp_all
    from Cons.IH [OF this] show ?thesis by simp
  qed
qed

lemma fold_fmax_Fin: "fold fmax (map Fin ys) (Fin a) = Fin (fold max ys a)"
  by (induction ys arbitrary: a) simp_all

lemma fabs_eq_NaN: "fabs x = NaN \<longleftrightarrow> x = NaN"
  by (cases x) simp_all

lemma fabs_eq_PInf: "fabs x = PInf \<longleftrightarrow> x = PInf \<or> x = NInf"
  by (cases x) simp_all

lemma peak_nan:
  assumes "NaN \<in> set xs"
  shows "np_max (map fabs xs) = Inr NaN"
proof (cases xs)
  case Nil
  with assms show ?thesis by simp
next
  case (Cons x rest)
  from assms have "NaN \<in> set (map fabs xs)" by (force simp: fabs_eq_NaN image_iff)
  then have "NaN \<in> set (fabs x # map fabs rest)" by (simp add: Cons)
  from fold_fmax_NaN [OF this] show ?thesis by (simp add: np_max_def Cons)
qed

lemma peak_inf:
  assumes "NaN \<notin> set xs" and "PInf \<in> set xs \<or> NInf \<in> set xs"
  shows "np_max (map fabs xs) = Inr PInf"
proof (cases xs)
  case Nil
  with assms show ?thesis by simp
next
  case (Cons x rest)
  from assms(1) have "NaN \<notin> set (map fabs xs)"
    by (auto simp: eq_commute [of NaN] fabs_eq_NaN)
  then have a: "NaN \<notin> set (fabs x # map fabs rest)" by (simp add: Cons)
  from assms(2) have "PInf \<in> set (map fabs xs)" by (force simp: fabs_eq_PInf image_iff)
  then have b: "PInf \<in> set (fabs x # map fabs rest)" by (simp add: Cons)
  from fold_fmax_PInf [OF a b] show ?thesis by (simp add: np_max_def Cons)
qed

lemma peak_fin:
  assumes "rs \<noteq> []"
  shows "np_max (map fabs (map Fin rs)) = Inr (Fin (Max (set (map abs rs))))"
proof (cases rs)
  case Nil
  with assms show ?thesis by simp
next
  case (Cons r rest)
  have "Max (set (\<bar>r\<bar> # map abs rest)) = fold max (map abs rest) \<bar>r\<bar>"
    by (rule Max.set_eq_fold)
  moreover have "fold fmax (map fabs (map Fin rest)) (Fin \<bar>r\<bar>) = Fin (fold max (map abs rest) \<bar>r\<bar>)"
    using fold_fmax_Fin [of "map abs rest" "\<bar>r\<bar>"] by (simp add: comp_def)
  ultimately show ?thesis by (simp add: np_max_def Cons)
qed

lemma all_finite_map_Fin:
  "NaN \<notin> set xs \<Longrightarrow> PInf \<notin> set xs \<Longrightarrow> NInf \<notin> set xs \<Longrightarrow> \<exists>rs. xs = map Fin rs"
proof (induction xs)
  case Nil
  then show ?case by simp
next
  case (Cons x xs)
  then obtain rs where "xs = map Fin rs" by auto
  moreover from Cons.prems obtain r where "x = Fin r" by (cases x) auto
  ultimately have "x # xs = map Fin (r # rs)" by simp
  then show ?case by (rule exI)
qed

lemma peak_zero_iff:
  assumes "xs \<noteq> []"
  shows "Max (set (map abs xs)) = (0::real) \<longleftrightarrow> (\<forall>x\<in>set xs. x = 0)"
proof
  assume z: "Max (set (map abs xs)) = 0"
  show "\<forall>x\<in>set xs. x = 0"
  proof
    fix x assume "x \<in> set xs"
    then have "\<bar>x\<bar> \<le> Max (set (map abs xs))" by (intro Max_ge) auto
    with z show "x = 0" by simp
  qed
next
  assume "\<forall>x\<in>set xs. x = 0"
  with assms have "set (map abs xs) = {0}" by (cases xs) auto
  then show "Max (set (map abs xs)) = 0" by simp
qed

lemma peak_nonneg:
  assumes "xs \<noteq> []"
  shows "(0::real) \<le> Max (set (map abs xs))"
proof -
  from assms obtain x where "x \<in> set xs" by (cases xs) auto
  then have "\<bar>x\<bar> \<le> Max (set (map abs xs))" by (intro Max_ge) auto
  then show ?thesis by simp
qed

lemma normalize_level_peak:
  "np_max (map fabs (samples raw)) = Inr peak \<Longrightarrow>
     normalize_level raw = Inr (map_recording (\<lambda>x. np_divide x peak) raw)"
  by (simp add: normalize_level_def)

text \<open>
  Claim C3, as the code has it. For a recording whose samples are all finite and not all
  zero, the normalisation returns, every normalised sample is a finite number, and the
  largest absolute value among the normalised samples is exactly 1. (A recording that
  holds a \<open>nan\<close> or an infinity, as a file in a float format can, is not silent either,
  but its normalised samples hold \<open>nan\<close>, and so does their maximum.)
\<close>

theorem normalized_peak_is_one:
  assumes "samples raw = map Fin xs" and "\<exists>x\<in>set xs. x \<noteq> 0"
  shows "\<exists>normed vs. normalize_level raw = Inr normed \<and> samples normed = map Fin vs \<and>
           Max (set (map abs vs)) = 1 \<and> np_max (map fabs (samples normed)) = Inr (Fin 1)"
proof -
  let ?p = "Max (set (map abs xs))"
  from assms(2) have ne: "xs \<noteq> []" by auto
  from assms(2) peak_zero_iff [OF ne] have "?p \<noteq> 0" by blast
  with peak_nonneg [OF ne] have pos: "0 < ?p" by simp
  let ?vs = "map (\<lambda>x. x / ?p) xs"
  let ?normed = "map_recording (\<lambda>x. np_divide x (Fin ?p)) raw"
  from peak_fin [OF ne] have "np_max (map fabs (samples raw)) = Inr (Fin ?p)"
    by (simp add: assms(1))
  then have run: "normalize_level raw = Inr ?normed" by (rule normalize_level_peak)
  have fin: "samples ?normed = map Fin ?vs"
    using pos by (simp add: samples_map_recording assms(1))
  have one: "Max (set (map abs ?vs)) = 1"
  proof (rule Max_eqI)
    show "finite (set (map abs ?vs))" by simp
  next
    fix v assume "v \<in> set (map abs ?vs)"
    then obtain x where x: "x \<in> set xs" and v: "v = \<bar>x / ?p\<bar>" by auto
    from x have "\<bar>x\<bar> \<le> ?p" by (intro Max_ge) auto
    with pos show "v \<le> 1" by (simp add: v)
  next
    have "?p \<in> set (map abs xs)" using ne by (intro Max_in) auto
    then obtain x where x: "x \<in> set xs" and p: "?p = \<bar>x\<bar>" by auto
    from pos have "\<bar>x / ?p\<bar> = 1" using p by simp
    with x show "1 \<in> set (map abs ?vs)" by force
  qed
  have "?vs \<noteq> []" using ne by simp
  from peak_fin [OF this] have "np_max (map fabs (samples ?normed)) = Inr (Fin 1)"
    by (simp only: fin one)
  with run fin one show ?thesis by blast
qed

theorem normalized_peak_is_one_witness:
  "samples (Multi 2 [[Fin 1, Fin (- 4)], [Fin 0, Fin 2]]) = map Fin [1, - 4, 0, 2] \<and>
   2 \<in> set [1, - 4, 0, 2::real] \<and> (2::real) \<noteq> 0 \<and>
   normalize_level (Multi 2 [[Fin 1, Fin (- 4)], [Fin 0, Fin 2]])
     = Inr (Multi 2 [[Fin (1/4), Fin (- 1)], [Fin 0, Fin (1/2)]]) \<and>
   (\<exists>normed vs. normalize_level (Multi 2 [[Fin 1, Fin (- 4)], [Fin 0, Fin 2]]) = Inr normed \<and>
      samples normed = map Fin vs \<and> Max (set (map abs vs)) = 1 \<and>
      np_max (map fabs (samples normed)) = Inr (Fin 1))"
proof -
  let ?raw = "Multi 2 [[Fin 1, Fin (- 4)], [Fin 0, Fin 2]]"
  have fin: "samples ?raw = map Fin [1, - 4, 0, 2]" by simp
  have mem: "2 \<in> set [1, - 4, 0, 2::real]" by simp
  have nz: "(2::real) \<noteq> 0" by simp
  from mem nz have "\<exists>x\<in>set [1, - 4, 0, 2::real]. x \<noteq> 0" by blast
  note th = normalized_peak_is_one [OF fin this]
  have run: "normalize_level ?raw = Inr (Multi 2 [[Fin (1/4), Fin (- 1)], [Fin 0, Fin (1/2)]])"
    by code_simp
  from fin mem nz run th show ?thesis by blast
qed

theorem normalized_peak_is_one_counterexample:
  "Fin 1 \<in> set (samples (Mono [Fin 1, NaN])) \<and> Fin 1 \<noteq> Fin 0 \<and>
   normalize_level (Mono [Fin 1, NaN]) = Inr (Mono [NaN, NaN]) \<and>
   np_max (map fabs (samples (Mono [NaN, NaN]))) = Inr NaN \<and>
   Fin 1 \<in> set (samples (Mono [Fin 1, PInf])) \<and>
   normalize_level (Mono [Fin 1, PInf]) = Inr (Mono [Fin 0, NaN]) \<and>
   np_max (map fabs (samples (Mono [Fin 0, NaN]))) = Inr NaN \<and>
   NaN \<noteq> Fin 1"
  by (simp add: normalize_level_def np_max_def)

lemma np_divide_NaN_right: "np_divide x NaN = NaN"
  by (cases x) simp_all

lemma np_divide_PInf_right:
  "np_divide x PInf = (case x of Fin v \<Rightarrow> Fin 0 | _ \<Rightarrow> NaN)"
  by (cases x) simp_all

text \<open>
  Claim C10, as the code has it. The division is not guarded, and it raises nothing. For
  a recording that has samples, the divisor (the peak level) is zero exactly when every
  sample is zero; then every quotient is \<open>0/0\<close> and the whole normalised recording is
  \<open>nan\<close>. The normalised samples are all finite numbers exactly when the samples are
  all finite and not all zero. (A recording without samples has no divisor: \<open>np.max\<close>
  raises ValueError before the division.)
\<close>

theorem division_by_peak:
  assumes "samples raw \<noteq> []"
  shows "\<exists>peak normed.
           np_max (map fabs (samples raw)) = Inr peak \<and>
           normalize_level raw = Inr normed \<and>
           samples normed = map (\<lambda>x. np_divide x peak) (samples raw) \<and>
           (peak = Fin 0 \<longleftrightarrow> (\<forall>x\<in>set (samples raw). x = Fin 0)) \<and>
           ((\<forall>x\<in>set (samples raw). x = Fin 0) \<longrightarrow> (\<forall>v\<in>set (samples normed). v = NaN)) \<and>
           ((\<forall>v\<in>set (samples normed). is_finite v) \<longleftrightarrow>
              (\<forall>x\<in>set (samples raw). is_finite x) \<and> (\<exists>x\<in>set (samples raw). x \<noteq> Fin 0))"
proof -
  let ?xs = "samples raw"
  let ?Q = "\<lambda>peak. map (\<lambda>x. np_divide x peak) ?xs"
  have key: "\<exists>peak. np_max (map fabs ?xs) = Inr peak \<and>
           (peak = Fin 0 \<longleftrightarrow> (\<forall>x\<in>set ?xs. x = Fin 0)) \<and>
           ((\<forall>x\<in>set ?xs. x = Fin 0) \<longrightarrow> (\<forall>v\<in>set (?Q peak). v = NaN)) \<and>
           ((\<forall>v\<in>set (?Q peak). is_finite v) \<longleftrightarrow>
              (\<forall>x\<in>set ?xs. is_finite x) \<and> (\<exists>x\<in>set ?xs. x \<noteq> Fin 0))"
  proof (cases "NaN \<in> set ?xs")
    case True
    have "\<not> (\<forall>v\<in>set (?Q NaN). is_finite v)"
      using True by (auto simp: np_divide_NaN_right intro!: bexI [of _ NaN])
    moreover have "\<not> (\<forall>x\<in>set ?xs. is_finite x)"
      using True by (auto intro!: bexI [of _ NaN])
    moreover have "\<not> (\<forall>x\<in>set ?xs. x = Fin 0)"
      using True by (auto intro!: bexI [of _ NaN])
    ultimately show ?thesis using peak_nan [OF True] by auto
  next
    case noNaN: False
    show ?thesis
    proof (cases "PInf \<in> set ?xs \<or> NInf \<in> set ?xs")
      case True
      then obtain x where x: "x \<in> set ?xs" and inf: "x = PInf \<or> x = NInf" by auto
      from inf have "np_divide x PInf = NaN" by auto
      with x have "NaN \<in> set (?Q PInf)" by force
      then have "\<not> (\<forall>v\<in>set (?Q PInf). is_finite v)"
        by (intro notI) (metis is_finite.simps(4))
      moreover have "\<not> (\<forall>x\<in>set ?xs. is_finite x)"
        using x inf by (auto intro!: bexI [of _ x])
      moreover have "\<not> (\<forall>x\<in>set ?xs. x = Fin 0)"
        using x inf by (auto intro!: bexI [of _ x])
      ultimately show ?thesis using peak_inf [OF noNaN True] by auto
    next
      case False
      with noNaN all_finite_map_Fin obtain rs where rs: "?xs = map Fin rs" by blast
      with assms have ne: "rs \<noteq> []" by auto
      let ?p = "Max (set (map abs rs))"
      from peak_fin [OF ne] have peak: "np_max (map fabs ?xs) = Inr (Fin ?p)"
        by (simp add: rs)
      note z = peak_zero_iff [OF ne]
      from ne obtain r where r: "r \<in> set rs" by (cases rs) auto
      have a: "Fin ?p = Fin 0 \<longleftrightarrow> (\<forall>x\<in>set ?xs. x = Fin 0)"
        using z by (auto simp: rs)
      have b: "(\<forall>x\<in>set ?xs. x = Fin 0) \<longrightarrow> (\<forall>v\<in>set (?Q (Fin ?p)). v = NaN)"
        using z by (auto simp: rs)
      have c: "(\<forall>v\<in>set (?Q (Fin ?p)). is_finite v) \<longleftrightarrow>
              (\<forall>x\<in>set ?xs. is_finite x) \<and> (\<exists>x\<in>set ?xs. x \<noteq> Fin 0)"
      proof (cases "?p = 0")
        case True
        with z have zero: "\<forall>x\<in>set rs. x = 0" by blast
        with r True have q: "np_divide (Fin r) (Fin ?p) = NaN" by simp
        from r have "Fin r \<in> set ?xs" by (simp add: rs)
        then have "np_divide (Fin r) (Fin ?p) \<in> (\<lambda>x. np_divide x (Fin ?p)) ` set ?xs"
          by (rule imageI)
        with q have "NaN \<in> set (?Q (Fin ?p))" by (simp only: set_map)
        then have "\<not> (\<forall>v\<in>set (?Q (Fin ?p)). is_finite v)"
          by (intro notI) (metis is_finite.simps(4))
        moreover from zero have "\<not> (\<exists>x\<in>set ?xs. x \<noteq> Fin 0)" by (auto simp: rs)
        ultimately show ?thesis by blast
      next
        case False
        with z have "\<exists>x\<in>set ?xs. x \<noteq> Fin 0" by (auto simp: rs)
        moreover have "\<forall>x\<in>set ?xs. is_finite x" by (auto simp: rs)
        moreover from False have "\<forall>v\<in>set (?Q (Fin ?p)). is_finite v" by (auto simp: rs)
        ultimately show ?thesis by blast
      qed
      from peak a b c show ?thesis by blast
    qed
  qed
  then obtain peak where peak: "np_max (map fabs ?xs) = Inr peak"
    and rest: "(peak = Fin 0 \<longleftrightarrow> (\<forall>x\<in>set ?xs. x = Fin 0)) \<and>
           ((\<forall>x\<in>set ?xs. x = Fin 0) \<longrightarrow> (\<forall>v\<in>set (?Q peak). v = NaN)) \<and>
           ((\<forall>v\<in>set (?Q peak). is_finite v) \<longleftrightarrow>
              (\<forall>x\<in>set ?xs. is_finite x) \<and> (\<exists>x\<in>set ?xs. x \<noteq> Fin 0))"
    by blast
  let ?normed = "map_recording (\<lambda>x. np_divide x peak) raw"
  have run: "normalize_level raw = Inr ?normed" using peak by (rule normalize_level_peak)
  have s: "samples ?normed = ?Q peak" by (rule samples_map_recording)
  from peak run s rest show ?thesis
    by (intro exI [of _ peak] exI [of _ ?normed]) (simp only: s, blast)
qed

theorem division_by_peak_witness:
  "samples (Mono [Fin 0, Fin 0]) \<noteq> [] \<and>
   np_max (map fabs (samples (Mono [Fin 0, Fin 0]))) = Inr (Fin 0) \<and>
   normalize_level (Mono [Fin 0, Fin 0]) = Inr (Mono [NaN, NaN]) \<and>
   samples (Mono [NaN, NaN]) = map (\<lambda>x. np_divide x (Fin 0)) (samples (Mono [Fin 0, Fin 0])) \<and>
   \<not> is_finite NaN"
proof -
  let ?raw = "Mono [Fin 0, Fin 0]"
  have ne: "samples ?raw \<noteq> []" by simp
  have peak: "np_max (map fabs (samples ?raw)) = Inr (Fin 0)" by (simp add: np_max_def)
  have run: "normalize_level ?raw = Inr (Mono [NaN, NaN])"
    by (simp add: normalize_level_def np_max_def)
  from division_by_peak [OF ne] peak run
  have "samples (Mono [NaN, NaN]) = map (\<lambda>x. np_divide x (Fin 0)) (samples ?raw)"
    by auto
  with ne peak run show ?thesis by simp
qed

theorem division_by_peak_counterexample:
  "samples (Multi 2 [] :: fval recording) = [] \<and>
   np_max (map fabs (samples (Multi 2 []))) = Inl ValueError \<and>
   normalize_level (Multi 2 []) = Inl ValueError \<and>
   normalize_level (Mono [Fin 0, Fin 0]) = Inr (Mono [NaN, NaN])"
  by (simp add: normalize_level_def np_max_def)

text \<open>
  The normalisation never stores an infinity, so no row that \<open>import_data\<close> builds holds
  one.
\<close>

lemma normalize_level_no_infinity:
  assumes "normalize_level raw = Inr normed" and "v \<in> set (samples normed)"
  shows "v \<noteq> PInf \<and> v \<noteq> NInf"
proof -
  let ?xs = "samples raw"
  from assms(1) obtain peak where peak: "np_max (map fabs ?xs) = Inr peak"
    and normed: "normed = map_recording (\<lambda>x. np_divide x peak) raw"
    by (auto simp: normalize_level_def split: sum.splits)
  from assms(2) obtain x where x: "x \<in> set ?xs" and v: "v = np_divide x peak"
    by (auto simp: normed samples_map_recording)
  show ?thesis
  proof (cases "NaN \<in> set ?xs")
    case True
    from peak_nan [OF True] peak have "peak = NaN" by simp
    then show ?thesis by (simp add: v np_divide_NaN_right)
  next
    case noNaN: False
    show ?thesis
    proof (cases "PInf \<in> set ?xs \<or> NInf \<in> set ?xs")
      case True
      from peak_inf [OF noNaN True] peak have "peak = PInf" by simp
      then show ?thesis by (simp add: v np_divide_PInf_right split: fval.splits)
    next
      case False
      with noNaN all_finite_map_Fin obtain rs where rs: "?xs = map Fin rs" by blast
      with x have ne: "rs \<noteq> []" by auto
      from x obtain r where r: "r \<in> set rs" and xr: "x = Fin r" by (auto simp: rs)
      from peak_fin [OF ne] peak have p: "peak = Fin (Max (set (map abs rs)))"
        by (simp add: rs)
      from peak_zero_iff [OF ne] r have "Max (set (map abs rs)) = 0 \<longrightarrow> r = 0" by blast
      then show ?thesis by (auto simp: v xr p)
    qed
  qed
qed

section \<open>The magnitude spectrum\<close>

lemma finite_row_map_Fin: "finite_row (map Fin vs) = Some vs"
  by (induction vs) simp_all

lemma length_rfft_abs_row: "length (rfft_abs_row inf_bins r) = length r div 2 + 1"
  by (simp add: rfft_abs_row_def split: option.splits)

lemma rfft_abs_row_finite:
  "rfft_abs_row inf_bins (map Fin vs)
     = map Fin (map (\<lambda>k. cmod (dft_bin vs k)) [0..<length vs div 2 + 1])"
  by (simp add: rfft_abs_row_def finite_row_map_Fin)

lemma cast32_ge0:
  assumes "\<forall>v. 0 \<le> v \<longrightarrow> ge0 (rnd v)" and "\<forall>m\<in>set ms. 0 \<le> m"
  shows "\<forall>w\<in>set (map (cast32 rnd) (map Fin ms)). ge0 w"
  using assms by auto

text \<open>
  Claim C7, as the code has it. For a matrix of raw segments whose rows have length
  \<open>L\<close> above zero, the magnitude step returns one feature vector per segment, each of
  length \<open>L div 2 + 1\<close> (257 for \<open>L = 512\<close>), and the conversion to float32 keeps this
  shape. The feature vector of a row of finite samples consists of finite numbers that
  are at least zero, and its entries are still at least zero after a conversion that
  rounds no number from zero upwards to a number below zero. (A row of \<open>nan\<close>, which a
  silent recording gives, has \<open>nan\<close> entries, and for \<open>L = 0\<close> the transform raises
  ValueError.)
\<close>

theorem magnitude_spectrum_features:
  assumes "\<forall>r\<in>set rows. length r = L" and "0 < L"
  shows "\<exists>F G. magnitude_step inf_bins (Mat L rows) = Inr (Mat (L div 2 + 1) F) \<and>
           np_float32 rnd (Mat (L div 2 + 1) F) = Inr (Mat (L div 2 + 1) G) \<and>
           length F = length rows \<and> length G = length rows \<and>
           (\<forall>f\<in>set F. length f = L div 2 + 1) \<and> (\<forall>g\<in>set G. length g = L div 2 + 1) \<and>
           (\<forall>i<length rows. \<forall>vs. rows ! i = map Fin vs \<longrightarrow>
              (\<exists>ms. F ! i = map Fin ms \<and> (\<forall>m\<in>set ms. 0 \<le> m)) \<and>
              ((\<forall>v. 0 \<le> v \<longrightarrow> ge0 (rnd v)) \<longrightarrow> (\<forall>w\<in>set (G ! i). ge0 w)))"
proof -
  let ?F = "map (rfft_abs_row inf_bins) rows"
  let ?G = "map (map (cast32 rnd)) ?F"
  have mag: "magnitude_step inf_bins (Mat L rows) = Inr (Mat (L div 2 + 1) ?F)"
    using assms(2) by simp
  have conv: "np_float32 rnd (Mat (L div 2 + 1) ?F) = Inr (Mat (L div 2 + 1) ?G)"
    by simp
  have lenF: "\<forall>f\<in>set ?F. length f = L div 2 + 1"
    using assms(1) by (auto simp: length_rfft_abs_row)
  then have lenG: "\<forall>g\<in>set ?G. length g = L div 2 + 1" by auto
  have fin: "\<forall>i<length rows. \<forall>vs. rows ! i = map Fin vs \<longrightarrow>
              (\<exists>ms. ?F ! i = map Fin ms \<and> (\<forall>m\<in>set ms. 0 \<le> m)) \<and>
              ((\<forall>v. 0 \<le> v \<longrightarrow> ge0 (rnd v)) \<longrightarrow> (\<forall>w\<in>set (?G ! i). ge0 w))"
  proof (intro allI impI)
    fix i vs
    assume i: "i < length rows" and row: "rows ! i = map Fin vs"
    let ?ms = "map (\<lambda>k. cmod (dft_bin vs k)) [0..<length vs div 2 + 1]"
    from i row have Fi: "?F ! i = map Fin ?ms" by (simp add: rfft_abs_row_finite)
    have nn: "\<forall>m\<in>set ?ms. 0 \<le> m" by simp
    from i Fi have Gi: "?G ! i = map (cast32 rnd) (map Fin ?ms)" by simp
    have "(\<forall>v. 0 \<le> v \<longrightarrow> ge0 (rnd v)) \<longrightarrow> (\<forall>w\<in>set (?G ! i). ge0 w)"
      unfolding Gi using cast32_ge0 [OF _ nn] by blast
    with Fi nn show "(\<exists>ms. ?F ! i = map Fin ms \<and> (\<forall>m\<in>set ms. 0 \<le> m)) \<and>
              ((\<forall>v. 0 \<le> v \<longrightarrow> ge0 (rnd v)) \<longrightarrow> (\<forall>w\<in>set (?G ! i). ge0 w))"
      by blast
  qed
  have "length ?F = length rows" and "length ?G = length rows" by simp_all
  with mag conv lenF lenG fin show ?thesis by blast
qed

theorem magnitude_spectrum_features_witness:
  "length (replicate 512 (Fin 1)) = 512 \<and> 0 < (512::nat) \<and>
   [replicate 512 (Fin 1)] ! 0 = map Fin (replicate 512 1) \<and>
   magnitude_step (\<lambda>r k. NaN) (Mat 512 [replicate 512 (Fin 1)])
     = Inr (Mat 257 [rfft_abs_row (\<lambda>r k. NaN) (replicate 512 (Fin 1))]) \<and>
   np_float32 Fin (Mat 257 [rfft_abs_row (\<lambda>r k. NaN) (replicate 512 (Fin 1))])
     = Inr (Mat 257 [map (cast32 Fin) (rfft_abs_row (\<lambda>r k. NaN) (replicate 512 (Fin 1)))]) \<and>
   length (rfft_abs_row (\<lambda>r k. NaN) (replicate 512 (Fin 1))) = 257 \<and>
   (\<exists>ms. rfft_abs_row (\<lambda>r k. NaN) (replicate 512 (Fin 1)) = map Fin ms \<and> 0 \<le> ms ! 0) \<and>
   ge0 (map (cast32 Fin) (rfft_abs_row (\<lambda>r k. NaN) (replicate 512 (Fin 1))) ! 0)"
proof -
  let ?row = "replicate 512 (Fin 1)"
  let ?f = "rfft_abs_row (\<lambda>r k. NaN) ?row"
  have len: "\<forall>r\<in>set [?row]. length r = 512" by simp
  have pos: "0 < (512::nat)" by simp
  have row: "[?row] ! 0 = map Fin (replicate 512 1)" by simp
  have mag: "magnitude_step (\<lambda>r k. NaN) (Mat 512 [?row]) = Inr (Mat 257 [?f])" by simp
  have conv: "np_float32 Fin (Mat 257 [?f]) = Inr (Mat 257 [map (cast32 Fin) ?f])" by simp
  have rnd: "\<forall>v. 0 \<le> v \<longrightarrow> ge0 (Fin v)" by simp
  from magnitude_spectrum_features [OF len pos, of "\<lambda>r k. NaN" Fin]
  obtain F G where F: "magnitude_step (\<lambda>r k. NaN) (Mat 512 [?row]) = Inr (Mat (512 div 2 + 1) F)"
    and G: "np_float32 Fin (Mat (512 div 2 + 1) F) = Inr (Mat (512 div 2 + 1) G)"
    and lenF: "\<forall>f\<in>set F. length f = 512 div 2 + 1"
    and fin: "\<forall>i<length [?row]. \<forall>vs. [?row] ! i = map Fin vs \<longrightarrow>
              (\<exists>ms. F ! i = map Fin ms \<and> (\<forall>m\<in>set ms. 0 \<le> m)) \<and>
              ((\<forall>v. 0 \<le> v \<longrightarrow> ge0 (Fin v)) \<longrightarrow> (\<forall>w\<in>set (G ! i). ge0 w))"
    by blast
  from F mag have Feq: "F = [?f]" by simp
  from G conv Feq have Geq: "G = [map (cast32 Fin) ?f]" by simp
  from lenF Feq have a: "length ?f = 257" by simp
  have "0 < length [?row]" by simp
  with fin row rnd have "(\<exists>ms. F ! 0 = map Fin ms \<and> (\<forall>m\<in>set ms. 0 \<le> m))"
    and g: "\<forall>w\<in>set (G ! 0). ge0 w"
    by blast+
  then obtain ms where ms: "?f = map Fin ms" and nn: "\<forall>m\<in>set ms. 0 \<le> m"
    by (auto simp: Feq)
  from a ms have "0 < length ms" by (metis length_map zero_less_numeral)
  with nn have "0 \<le> ms ! 0" by simp
  with ms have b: "\<exists>ms. ?f = map Fin ms \<and> 0 \<le> ms ! 0" by blast
  from a have "map (cast32 Fin) ?f ! 0 \<in> set (map (cast32 Fin) ?f)"
    by (intro nth_mem) simp
  moreover from g have "\<forall>w\<in>set (map (cast32 Fin) ?f). ge0 w"
    unfolding Geq nth_Cons_0 .
  ultimately have c: "ge0 (map (cast32 Fin) ?f ! 0)" by blast
  from pos row mag conv a b c show ?thesis by simp
qed

theorem magnitude_spectrum_features_counterexample:
  "assemble (\<lambda>f. Some (Mono [Fin 0, Fin 0, Fin 0])) 5 ''d/'' 2 1 [(''a.wav'', 0)]
     = Inr (Mat 2 [[NaN, NaN]], Mat 5 [[1, 0, 0, 0, 0]]) \<and>
   magnitude_step (\<lambda>r k. PInf) (Mat 2 [[NaN, NaN]]) = Inr (Mat 2 [[NaN, NaN]]) \<and>
   features (\<lambda>r k. PInf) Fin (\<lambda>f. Some (Mono [Fin 0, Fin 0, Fin 0])) 5 ''d/'' 2 1 [(''a.wav'', 0)]
     = Inr (Mat 2 [[NaN, NaN]], Mat 5 [[1, 0, 0, 0, 0]]) \<and>
   \<not> ge0 NaN \<and>
   assemble (\<lambda>f. Some (Mono [Fin 1, Fin 2])) 5 ''d/'' 0 1 [(''a.wav'', 0)]
     = Inr (Mat 0 [[], []], Mat 5 [[1, 0, 0, 0, 0], [1, 0, 0, 0, 0]]) \<and>
   magnitude_step (\<lambda>r k. PInf) (Mat 0 [[], []]) = Inl ValueError"
proof -
  have run: "assemble (\<lambda>f. Some (Mono [Fin 0, Fin 0, Fin 0])) 5 ''d/'' 2 1 [(''a.wav'', 0)]
     = Inr (Mat 2 [[NaN, NaN]], Mat 5 [[1, 0, 0, 0, 0]])"
    by code_simp
  have row: "rfft_abs_row (\<lambda>r k. PInf) [NaN, NaN] = [NaN, NaN]"
    by (simp add: rfft_abs_row_def numeral_2_eq_2)
  have mag: "magnitude_step (\<lambda>r k. PInf) (Mat 2 [[NaN, NaN]]) = Inr (Mat 2 [[NaN, NaN]])"
    by (simp add: row)
  have "features (\<lambda>r k. PInf) Fin (\<lambda>f. Some (Mono [Fin 0, Fin 0, Fin 0])) 5 ''d/'' 2 1 [(''a.wav'', 0)]
     = Inr (Mat 2 [[NaN, NaN]], Mat 5 [[1, 0, 0, 0, 0]])"
    unfolding features_def run by (simp add: row)
  moreover have "assemble (\<lambda>f. Some (Mono [Fin 1, Fin 2])) 5 ''d/'' 0 1 [(''a.wav'', 0)]
     = Inr (Mat 0 [[], []], Mat 5 [[1, 0, 0, 0, 0], [1, 0, 0, 0, 0]])"
    by code_simp
  ultimately show ?thesis using run mag by simp
qed

end
